theory Spec2Isabelle
  imports
    Complex_Main
    "HOL-Library.Multiset"
    "HOL-Library.Char_ord"
    "HOL-Library.List_Lexorder"
    "HOL-Library.Sublist"
    "HOL-Library.Code_Target_Numeral"
begin

section \<open>The price pipeline of \<^verbatim>\<open>main.py\<close>\<close>

text \<open>
  The program is one Python file: \<^verbatim>\<open>scrape_prices\<close> fetches one listing page,
  \<^verbatim>\<open>step_1\<close> appends the fetched observations to the ledger file,
  \<^verbatim>\<open>step_2\<close> groups the ledger by product name, \<^verbatim>\<open>plot_graph\<close> selects and
  parses the grouped rows for each chart, and \<^verbatim>\<open>create_html_for_png_files\<close> writes
  the gallery page.

  Python text is modelled as \<^typ>\<open>string\<close>; one \<^typ>\<open>char\<close> stands for one character
  of the Python string, a code point below 256. The order on text is the lexicographic
  order on character codes that Python's comparison of strings uses.
\<close>

subsection \<open>Python text operations used by the program\<close>

text \<open>\<^verbatim>\<open>str.isspace\<close> on one character: tab, line feed, vertical tab, form feed,
  carriage return, the four separators 0x1C..0x1F, the space, the next-line character
  0x85 and the no-break space 0xA0.\<close>

definition isspace :: "char \<Rightarrow> bool" where
  "isspace c = (c = CHR '' '' \<or> (9 \<le> (of_char c :: nat) \<and> (of_char c :: nat) \<le> 13)
     \<or> (28 \<le> (of_char c :: nat) \<and> (of_char c :: nat) \<le> 31)
     \<or> (of_char c :: nat) = 133 \<or> (of_char c :: nat) = 160)"

text \<open>\<^verbatim>\<open>s.strip(chars)\<close>: drop from both ends every character for which the test holds.\<close>

definition strip_with :: "(char \<Rightarrow> bool) \<Rightarrow> string \<Rightarrow> string" where
  "strip_with P s = rev (dropWhile P (rev (dropWhile P s)))"

text \<open>\<^verbatim>\<open>s.strip()\<close>\<close>

definition strip :: "string \<Rightarrow> string" where
  "strip s = strip_with isspace s"

text \<open>\<^verbatim>\<open>s.strip('[]')\<close>\<close>

definition strip_brackets :: "string \<Rightarrow> string" where
  "strip_brackets s = strip_with (\<lambda>c. c = CHR ''['' \<or> c = CHR '']'') s"

text \<open>\<^verbatim>\<open>s.replace(',', '')\<close>\<close>

definition replace_commas :: "string \<Rightarrow> string" where
  "replace_commas s = filter (\<lambda>c. c \<noteq> CHR '','') s"

text \<open>\<^verbatim>\<open>s.split(',')\<close>: the pieces between the commas; the empty text gives one empty
  piece.\<close>

fun split_comma :: "string \<Rightarrow> string list" where
  "split_comma [] = [[]]"
| "split_comma (c # cs) =
     (if c = CHR '','' then [] # split_comma cs
      else (case split_comma cs of
              [] \<Rightarrow> [[c]]
            | p # ps \<Rightarrow> (c # p) # ps))"

text \<open>\<^verbatim>\<open>s.endswith(suffix)\<close>\<close>

definition endswith :: "string \<Rightarrow> string \<Rightarrow> bool" where
  "endswith s suf = (length suf \<le> length s \<and> drop (length s - length suf) s = suf)"

text \<open>\<^verbatim>\<open>sep.join(parts)\<close>\<close>

fun join :: "string \<Rightarrow> string list \<Rightarrow> string" where
  "join sep [] = []"
| "join sep [p] = p"
| "join sep (p # q # ps) = p @ sep @ join sep (q # ps)"

text \<open>\<^verbatim>\<open>str(n)\<close> for a Python int: decimal digits, a minus sign when negative.\<close>

definition digit_char :: "nat \<Rightarrow> char" where
  "digit_char d = char_of (48 + d)"

fun str_nat :: "nat \<Rightarrow> string" where
  "str_nat n = (if n < 10 then [digit_char n] else str_nat (n div 10) @ [digit_char (n mod 10)])"

declare str_nat.simps [simp del]

definition str_int :: "int \<Rightarrow> string" where
  "str_int i = (if i < 0 then CHR ''-'' # str_nat (nat (- i)) else str_nat (nat i))"

text \<open>Decimal digits and the number they write.\<close>

definition isdigit :: "char \<Rightarrow> bool" where
  "isdigit c = (48 \<le> (of_char c :: nat) \<and> (of_char c :: nat) \<le> 57)"

definition digit_val :: "char \<Rightarrow> nat" where
  "digit_val c = of_char c - 48"

definition nat_of_digits :: "string \<Rightarrow> nat" where
  "nat_of_digits ds = foldl (\<lambda>a c. 10 * a + digit_val c) 0 ds"

text \<open>ASCII lower case, for the names \<^verbatim>\<open>inf\<close>, \<^verbatim>\<open>infinity\<close> and \<^verbatim>\<open>nan\<close>, which
  \<^verbatim>\<open>float\<close> reads in any case.\<close>

definition lower_char :: "char \<Rightarrow> char" where
  "lower_char c = (if 65 \<le> (of_char c :: nat) \<and> (of_char c :: nat) \<le> 90
                   then char_of ((of_char c :: nat) + 32) else c)"

subsection \<open>The fetcher: \<^verbatim>\<open>scrape_prices\<close>\<close>

text \<open>
  The exceptions that can leave the modelled functions. A \<^verbatim>\<open>RequestException\<close> is
  caught inside \<^verbatim>\<open>scrape_prices\<close> and never leaves it, so it is part of the request's
  outcome below and not of this type.
\<close>

datatype pyerr = AttributeError | ValueError

text \<open>
  What BeautifulSoup finds in one product container
  (\<^verbatim>\<open>div.MuiBox-root.css-1p9qlrd\<close>): the \<^verbatim>\<open>.text\<close> of the first name, price and
  brand element inside it, or \<open>None\<close> where \<^verbatim>\<open>find\<close> returns \<^verbatim>\<open>None\<close>.
\<close>

record container =
  name_div :: "string option"
  price_p :: "string option"
  brand_div :: "string option"

text \<open>
  A response of the \<^verbatim>\<open>requests\<close> library: its status, the reason phrase and final URL
  (both only appear in the error message), and the product containers
  \<^verbatim>\<open>soup.find_all\<close> returns for its body, in document order.
\<close>

record response =
  status_code :: nat
  reason :: string
  final_url :: string
  products :: "container list"

text \<open>The outcome of \<^verbatim>\<open>requests.get(url)\<close>: it raises a \<^verbatim>\<open>RequestException\<close>
  (connection error, timeout, invalid URL, ...) with a message, or returns a response.\<close>

datatype http_outcome = RequestException string | Response response

text \<open>
  \<^verbatim>\<open>response.raise_for_status()\<close> of the \<^verbatim>\<open>requests\<close> library: an
  \<^verbatim>\<open>HTTPError\<close> (a \<^verbatim>\<open>RequestException\<close>) for a status from 400 to 599, with the
  message returned here; nothing for any other status.
\<close>

definition raise_for_status :: "response \<Rightarrow> string option" where
  "raise_for_status r =
     (if 400 \<le> status_code r \<and> status_code r < 500
      then Some (str_nat (status_code r) @ '' Client Error: '' @ reason r @ '' for url: '' @ final_url r)
      else if 500 \<le> status_code r \<and> status_code r < 600
      then Some (str_nat (status_code r) @ '' Server Error: '' @ reason r @ '' for url: '' @ final_url r)
      else None)"

text \<open>The loop over the containers (lines 21 to 26): a missing element makes
  \<^verbatim>\<open>.text\<close> raise \<^verbatim>\<open>AttributeError\<close>, which ends the loop and the function.\<close>

fun extract_products :: "(string \<times> string \<times> string) list \<Rightarrow> container list
    \<Rightarrow> pyerr + (string \<times> string \<times> string) list" where
  "extract_products product_data [] = Inr product_data"
| "extract_products product_data (p # ps) =
     (case name_div p of
        None \<Rightarrow> Inl AttributeError
      | Some n \<Rightarrow>
          (case price_p p of
             None \<Rightarrow> Inl AttributeError
           | Some pr \<Rightarrow>
               (case brand_div p of
                  None \<Rightarrow> Inl AttributeError
                | Some b \<Rightarrow>
                    extract_products
                      (product_data @ [(strip n, replace_commas (strip pr), strip b)]) ps)))"

text \<open>The line \<^verbatim>\<open>logging.error\<close> adds to the log for a failed request.\<close>

definition error_entry :: "string \<Rightarrow> string \<Rightarrow> string" where
  "error_entry url e = ''Error scraping '' @ url @ '': '' @ e"

text \<open>
  \<^verbatim>\<open>scrape_prices(url)\<close>, given what \<^verbatim>\<open>requests.get\<close> answers and the log so far.
  The result is the returned rows or the exception that escapes, and the log afterwards.
\<close>

definition scrape_prices :: "(string \<Rightarrow> http_outcome) \<Rightarrow> string \<Rightarrow> string list
    \<Rightarrow> (pyerr + (string \<times> string \<times> string) list) \<times> string list" where
  "scrape_prices requests_get url lg =
     (case requests_get url of
        RequestException e \<Rightarrow> (Inr [], lg @ [error_entry url e])
      | Response r \<Rightarrow>
          (case raise_for_status r of
             Some e \<Rightarrow> (Inr [], lg @ [error_entry url e])
           | None \<Rightarrow> (extract_products [] (products r), lg)))"

text \<open>A request ends in a \<^verbatim>\<open>RequestException\<close>, which \<^verbatim>\<open>scrape_prices\<close> catches:
  \<^verbatim>\<open>requests.get\<close> raised, or \<^verbatim>\<open>raise_for_status\<close> does.\<close>

fun request_raises :: "http_outcome \<Rightarrow> bool" where
  "request_raises (RequestException e) = True"
| "request_raises (Response r) = (raise_for_status r \<noteq> None)"

text \<open>A request failed, in the words of the comment on line 18: \<^verbatim>\<open>requests.get\<close>
  raised, or the status of the response is not a 2xx status.\<close>

fun request_failed :: "http_outcome \<Rightarrow> bool" where
  "request_failed (RequestException e) = True"
| "request_failed (Response r) = (status_code r < 200 \<or> 300 \<le> status_code r)"

text \<open>The message of the exception a failed request is caught with.\<close>

fun failure_message :: "http_outcome \<Rightarrow> string" where
  "failure_message (RequestException e) = e"
| "failure_message (Response r) = (case raise_for_status r of Some e \<Rightarrow> e | None \<Rightarrow> [])"

subsection \<open>The ledger writer: \<^verbatim>\<open>step_1\<close>\<close>

text \<open>One row of the table with the columns Name, Price, Brand and Date. The fetcher
  produces the price as text; a table read back from the ledger file holds what
  \<^verbatim>\<open>read_csv\<close> made of the column.\<close>

record 'p observation =
  Name :: string
  Price :: 'p
  Brand :: string
  Date :: string

text \<open>The world of one run: the answer to the \<open>i\<close>-th request of the run and the day
  \<^verbatim>\<open>datetime.now().strftime('%Y-%m-%d')\<close> gives right after it.\<close>

record world =
  requests_get :: "nat \<Rightarrow> string \<Rightarrow> http_outcome"
  today :: "nat \<Rightarrow> string"

text \<open>The loop over the URLs (lines 42 to 45), from the \<open>i\<close>-th request on.\<close>

fun fetch_all :: "world \<Rightarrow> nat \<Rightarrow> string list \<Rightarrow> string observation list \<Rightarrow> string list
    \<Rightarrow> (pyerr + string observation list) \<times> string list" where
  "fetch_all w i [] consolidated_data lg = (Inr consolidated_data, lg)"
| "fetch_all w i (url # urls) consolidated_data lg =
     (case scrape_prices (requests_get w i) url lg of
        (Inl e, lg') \<Rightarrow> (Inl e, lg')
      | (Inr product_data, lg') \<Rightarrow>
          fetch_all w (Suc i) urls
            (consolidated_data @
               map (\<lambda>(n, p, b). \<lparr>Name = n, Price = p, Brand = b, Date = today w i\<rparr>) product_data)
            lg')"

text \<open>\<^verbatim>\<open>df.drop_duplicates()\<close>: a row equal in every column to an earlier row is
  dropped, the first occurrence stays.\<close>

fun drop_duplicates_from :: "'a list \<Rightarrow> 'a list \<Rightarrow> 'a list" where
  "drop_duplicates_from seen [] = []"
| "drop_duplicates_from seen (x # xs) =
     (if x \<in> set seen then drop_duplicates_from seen xs
      else x # drop_duplicates_from (x # seen) xs)"

definition drop_duplicates :: "'a list \<Rightarrow> 'a list" where
  "drop_duplicates xs = drop_duplicates_from [] xs"

text \<open>
  \<^verbatim>\<open>df.sort_values(by='Name')\<close> is a parameter of the model: pandas sorts with
  quicksort, which fixes no order among rows of equal name. All that is used of it is
  that it returns the same rows, non-decreasing by name.
\<close>

definition sorts_by_name :: "(string observation list \<Rightarrow> string observation list) \<Rightarrow> bool" where
  "sorts_by_name sort_values =
     (\<forall>df. mset (sort_values df) = mset df \<and> sorted (map Name (sort_values df)))"

text \<open>A line of the ledger file \<^verbatim>\<open>results/product_price.csv\<close>: the header
  \<^verbatim>\<open>Name,Price,Brand,Date\<close> or one record.\<close>

datatype csv_line = Header | Record "string observation"

text \<open>
  Lines 59 and 60: the file is opened in append mode, so \<^verbatim>\<open>f.tell()\<close> is 0 exactly
  when the file is empty or new; \<^verbatim>\<open>to_csv\<close> then writes the header and the rows, and
  only the rows otherwise, after what the file holds.
\<close>

definition to_csv_append :: "csv_line list \<Rightarrow> string observation list \<Rightarrow> csv_line list" where
  "to_csv_append old df = old @ (if old = [] then [Header] else []) @ map Record df"

text \<open>The files \<^verbatim>\<open>step_1\<close> writes: the ledger and the log.\<close>

record files =
  ledger :: "csv_line list"
  scraper_log :: "string list"

text \<open>\<^verbatim>\<open>step_1(urls)\<close>: the exception that escapes, if any, and the files afterwards.\<close>

definition step_1 :: "(string observation list \<Rightarrow> string observation list) \<Rightarrow> world
    \<Rightarrow> string list \<Rightarrow> files \<Rightarrow> pyerr option \<times> files" where
  "step_1 sort_values w urls fs =
     (case fetch_all w 0 urls [] (scraper_log fs) of
        (Inl e, lg') \<Rightarrow> (Some e, fs\<lparr>scraper_log := lg'\<rparr>)
      | (Inr consolidated_data, lg') \<Rightarrow>
          (None, \<lparr>ledger = to_csv_append (ledger fs)
                              (sort_values (drop_duplicates consolidated_data)),
                  scraper_log = lg'\<rparr>))"

text \<open>The records of a ledger file, top to bottom.\<close>

fun ledger_rows :: "csv_line list \<Rightarrow> string observation list" where
  "ledger_rows [] = []"
| "ledger_rows (Header # ls) = ledger_rows ls"
| "ledger_rows (Record r # ls) = r # ledger_rows ls"

text \<open>
  The ledger writer as the data model of the specification words it: the new observations
  are united with the records the file holds, the union is deduplicated and sorted, and
  the whole table is written back under one header. It is here only to be compared with
  \<open>step_1\<close>.
\<close>

definition step_1_merge_rewrite :: "(string observation list \<Rightarrow> string observation list) \<Rightarrow> world
    \<Rightarrow> string list \<Rightarrow> files \<Rightarrow> pyerr option \<times> files" where
  "step_1_merge_rewrite sort_values w urls fs =
     (case fetch_all w 0 urls [] (scraper_log fs) of
        (Inl e, lg') \<Rightarrow> (Some e, fs\<lparr>scraper_log := lg'\<rparr>)
      | (Inr consolidated_data, lg') \<Rightarrow>
          (None, \<lparr>ledger = Header # map Record
                     (sort_values (drop_duplicates (ledger_rows (ledger fs) @ consolidated_data))),
                  scraper_log = lg'\<rparr>))"

subsection \<open>Reading the ledger back: \<^verbatim>\<open>read_csv\<close>\<close>

text \<open>
  A cell of the Price column of a table read from the ledger file. \<^verbatim>\<open>read_csv\<close> types
  the column as a whole: a column in which every price is a whole number becomes a column
  of ints, a column with a price that is not a number stays text, every cell of it.
\<close>

datatype cell = PyInt int | PyStr string








subsection \<open>The aggregator: \<^verbatim>\<open>step_2\<close>\<close>

text \<open>Adding one row to the groups collected so far: the price goes to the end of the
  group of its name, or opens a new group.\<close>

fun add_to_group :: "string \<Rightarrow> 'p \<Rightarrow> (string \<times> 'p list) list \<Rightarrow> (string \<times> 'p list) list" where
  "add_to_group k v [] = [(k, [v])]"
| "add_to_group k v ((k', vs) # gs) =
     (if k = k' then (k', vs @ [v]) # gs else (k', vs) # add_to_group k v gs)"

text \<open>The groups after the rows of a table have been added, one after the other, to the
  groups \<open>gs\<close>.\<close>

definition groups_of :: "(string \<times> 'p list) list \<Rightarrow> 'p observation list
    \<Rightarrow> (string \<times> 'p list) list" where
  "groups_of gs df = foldl (\<lambda>gs r. add_to_group (Name r) (Price r) gs) gs df"

text \<open>\<^verbatim>\<open>df.groupby('Name')['Price'].apply(list).reset_index()\<close>: the rows are put into
  groups in row order, and the groups come out sorted by their key.\<close>

definition groupby_Name :: "'p observation list \<Rightarrow> (string \<times> 'p list) list" where
  "groupby_Name df = sort_key fst (groups_of [] df)"

text \<open>\<^verbatim>\<open>repr\<close> of a Python \<^verbatim>\<open>str\<close>: single quotes, or double quotes when the text has a
  single quote and no double quote; backslash, the quote and the characters that are not
  printable (below 0x20, from 0x7F to 0xA0, and 0xAD) are escaped, every other character
  is copied.\<close>

definition hex_digit :: "nat \<Rightarrow> char" where
  "hex_digit d = (if d < 10 then char_of (48 + d) else char_of (87 + d))"

definition repr_char :: "char \<Rightarrow> char \<Rightarrow> string" where
  "repr_char q c =
     (if c = CHR 0x5C then [CHR 0x5C, CHR 0x5C]
      else if c = q then [CHR 0x5C, q]
      else if c = CHR 0x0A then [CHR 0x5C, CHR ''n'']
      else if c = CHR 0x0D then [CHR 0x5C, CHR ''r'']
      else if c = CHR 0x09 then [CHR 0x5C, CHR ''t'']
      else if (of_char c :: nat) < 32
              \<or> (127 \<le> (of_char c :: nat) \<and> (of_char c :: nat) \<le> 160)
              \<or> (of_char c :: nat) = 173
      then [CHR 0x5C, CHR ''x'', hex_digit ((of_char c :: nat) div 16),
            hex_digit ((of_char c :: nat) mod 16)]
      else [c])"

definition quote_for :: "string \<Rightarrow> char" where
  "quote_for s = (if CHR 0x27 \<in> set s \<and> CHR 0x22 \<notin> set s then CHR 0x22 else CHR 0x27)"

definition repr_str :: "string \<Rightarrow> string" where
  "repr_str s = quote_for s # concat (map (repr_char (quote_for s)) s) @ [quote_for s]"

fun repr :: "cell \<Rightarrow> string" where
  "repr (PyInt i) = str_int i"
| "repr (PyStr s) = repr_str s"

text \<open>\<^verbatim>\<open>str\<close> of a Python list, which is what \<^verbatim>\<open>to_csv\<close> writes for a cell that holds a
  list.\<close>

definition str_list :: "cell list \<Rightarrow> string" where
  "str_list ps = ''['' @ join '', '' (map repr ps) @ '']''"

text \<open>\<^verbatim>\<open>step_2(df)\<close>: the rows of \<^verbatim>\<open>results/grouped_product_prices.csv\<close> under its
  header \<^verbatim>\<open>Name,Prices\<close>. A table read back from this file holds the same two texts in
  every row.\<close>

definition step_2 :: "cell observation list \<Rightarrow> (string \<times> string) list" where
  "step_2 df = map (\<lambda>(n, ps). (n, str_list ps)) (groupby_Name df)"


subsection \<open>The chart renderer: \<^verbatim>\<open>plot_graph\<close>\<close>

text \<open>
  \<^verbatim>\<open>Series.str.contains(pat)\<close> is called with its defaults, so pandas reads the search
  string as a regular expression and keeps a name when \<^verbatim>\<open>re.search\<close> finds a match in
  it. The model covers the patterns made of ordinary characters and the dot: a dot matches
  any one character but a line feed, any other character matches itself.
\<close>

fun match_here :: "string \<Rightarrow> string \<Rightarrow> bool" where
  "match_here [] s = True"
| "match_here (p # ps) [] = False"
| "match_here (p # ps) (c # cs) =
     ((if p = CHR ''.'' then c \<noteq> CHR 0x0A else c = p) \<and> match_here ps cs)"

fun re_search :: "string \<Rightarrow> string \<Rightarrow> bool" where
  "re_search pat [] = match_here pat []"
| "re_search pat (c # cs) = (match_here pat (c # cs) \<or> re_search pat cs)"

text \<open>The other characters with a meaning of their own in a regular expression.\<close>

definition regex_special :: "char \<Rightarrow> bool" where
  "regex_special c = (c \<in> set (CHR 0x5C # ''^$*+?{}[]|()''))"

text \<open>
  Line 82, \<^verbatim>\<open>df[df['Name'].str.contains(search_string)]\<close>, on the rows (name, prices text)
  of the grouped table. The result is \<open>None\<close> for a search string outside the modelled
  patterns.
\<close>

definition df_filtered :: "string \<Rightarrow> (string \<times> string) list \<Rightarrow> (string \<times> string) list option" where
  "df_filtered search_string df =
     (if list_ex regex_special search_string then None
      else Some (filter (\<lambda>r. re_search search_string (fst r)) df))"

text \<open>
  A Python float is an IEEE double: \<open>Finite neg q\<close> is the double of magnitude \<open>q\<close>, a
  rational number that a double can hold, negative when \<open>neg\<close> holds; the other values
  are the two infinities and not-a-number.
\<close>

datatype pyfloat = Finite bool rat | Infinity bool | NaN

text \<open>Powers of two and of ten with an integer exponent.\<close>

definition pow2 :: "int \<Rightarrow> rat" where
  "pow2 k = (if 0 \<le> k then 2 ^ nat k else 1 / 2 ^ nat (- k))"

definition pow10 :: "int \<Rightarrow> rat" where
  "pow10 k = (if 0 \<le> k then 10 ^ nat k else 1 / 10 ^ nat (- k))"

text \<open>The number of binary digits of a natural number.\<close>

fun bit_length :: "nat \<Rightarrow> nat" where
  "bit_length n = (if n = 0 then 0 else Suc (bit_length (n div 2)))"

declare bit_length.simps [simp del]

text \<open>The integer below the binary logarithm of a positive rational number.\<close>

definition floor_log2 :: "rat \<Rightarrow> int" where
  "floor_log2 q =
     (case quotient_of q of
        (a, b) \<Rightarrow>
          let t = int (bit_length (nat a)) - int (bit_length (nat b))
          in if pow2 t \<le> q then t else t - 1)"

text \<open>Rounding to the nearest integer, a tie going to the even one.\<close>

definition round_half_even :: "rat \<Rightarrow> int" where
  "round_half_even r =
     (let f = \<lfloor>r\<rfloor>; d = r - of_int f
      in if d < 1 / 2 then f else if 1 / 2 < d then f + 1 else if even f then f else f + 1)"

text \<open>
  The double nearest to a rational number \<open>q \<ge> 0\<close>, as the conversions of Python round:
  53 binary digits, a tie to the even mantissa, no exponent below that of the smallest
  double, and \<open>None\<close> when the result is beyond the largest double.
\<close>

definition round_double :: "rat \<Rightarrow> rat option" where
  "round_double q =
     (if q = 0 then Some 0
      else let k = max (floor_log2 q - 52) (- 1074);
               m = round_half_even (q / pow2 k)
           in if 971 < k \<or> (k = 971 \<and> 2 ^ 53 \<le> m) then None
              else Some (of_int m * pow2 k))"

text \<open>The float that \<^verbatim>\<open>float\<close> reads from a decimal number: the nearest double, or
  infinity beyond the largest double.\<close>

definition float_of_decimal :: "bool \<Rightarrow> rat \<Rightarrow> pyfloat" where
  "float_of_decimal neg q =
     (case round_double q of None \<Rightarrow> Infinity neg | Some v \<Rightarrow> Finite neg v)"


text \<open>An underscore in the text given to \<^verbatim>\<open>float\<close> must stand between two digits.\<close>

fun underscores_ok :: "bool \<Rightarrow> string \<Rightarrow> bool" where
  "underscores_ok prev_digit [] = True"
| "underscores_ok prev_digit (c # cs) =
     (if c = CHR ''_''
      then prev_digit \<and> (case cs of [] \<Rightarrow> False | d # ds \<Rightarrow> isdigit d) \<and> underscores_ok False cs
      else underscores_ok (isdigit c) cs)"

text \<open>The exponent part: empty, or \<^verbatim>\<open>e\<close> or \<^verbatim>\<open>E\<close>, an optional sign and at least one
  digit.\<close>

definition parse_exponent :: "string \<Rightarrow> int option" where
  "parse_exponent s =
     (case s of
        [] \<Rightarrow> Some 0
      | c # cs \<Rightarrow>
          if c = CHR ''e'' \<or> c = CHR ''E''
          then (case cs of
                  [] \<Rightarrow> None
                | d # ds \<Rightarrow>
                    let digits = (if d = CHR ''+'' \<or> d = CHR ''-'' then ds else cs) in
                    if digits = [] \<or> \<not> list_all isdigit digits then None
                    else if d = CHR ''-'' then Some (- int (nat_of_digits digits))
                    else Some (int (nat_of_digits digits)))
          else None)"

text \<open>An unsigned decimal number: digits, an optional point and more digits (at least one
  digit in all), an optional exponent. The result is the mantissa and the power of ten.\<close>

definition parse_number :: "string \<Rightarrow> (nat \<times> int) option" where
  "parse_number s =
     (let ip = takeWhile isdigit s;
          r1 = dropWhile isdigit s;
          fp = (case r1 of [] \<Rightarrow> [] | c # cs \<Rightarrow> if c = CHR ''.'' then takeWhile isdigit cs else []);
          r2 = (case r1 of [] \<Rightarrow> [] | c # cs \<Rightarrow> if c = CHR ''.'' then dropWhile isdigit cs else r1)
      in if ip = [] \<and> fp = [] then None
         else (case parse_exponent r2 of
                 None \<Rightarrow> None
               | Some e \<Rightarrow> Some (nat_of_digits (ip @ fp), e - int (length fp))))"

text \<open>
  \<^verbatim>\<open>float(text)\<close>: white space around the text is ignored, underscores between digits are
  dropped, then come an optional sign and a decimal number or one of the names
  \<^verbatim>\<open>inf\<close>, \<^verbatim>\<open>infinity\<close>, \<^verbatim>\<open>nan\<close>. Anything else raises \<^verbatim>\<open>ValueError\<close>. The
  number read is rounded to the nearest double.
\<close>

definition py_float :: "string \<Rightarrow> pyerr + pyfloat" where
  "py_float s =
     (if \<not> underscores_ok False s then Inl ValueError
      else (case strip (filter (\<lambda>c. c \<noteq> CHR ''_'') s) of
              [] \<Rightarrow> Inl ValueError
            | c # cs \<Rightarrow>
                let neg = (c = CHR ''-'');
                    body = (if c = CHR ''-'' \<or> c = CHR ''+'' then cs else c # cs);
                    name = map lower_char body
                in if name = ''inf'' \<or> name = ''infinity'' then Inr (Infinity neg)
                   else if name = ''nan'' then Inr NaN
                   else (case parse_number body of
                           None \<Rightarrow> Inl ValueError
                         | Some (m, e) \<Rightarrow> Inr (float_of_decimal neg (of_nat m * pow10 e)))))"

text \<open>The list comprehension of line 85 over the pieces \<open>y\<close>:
  \<^verbatim>\<open>float(''.join(y.split(',')))\<close> for each, the first exception ends it.\<close>

fun floats_of :: "string list \<Rightarrow> pyerr + pyfloat list" where
  "floats_of [] = Inr []"
| "floats_of (y # ys) =
     (case py_float (join [] (split_comma y)) of
        Inl e \<Rightarrow> Inl e
      | Inr v \<Rightarrow> (case floats_of ys of Inl e \<Rightarrow> Inl e | Inr vs \<Rightarrow> Inr (v # vs)))"

text \<open>The function applied to every Prices text on line 85:
  \<^verbatim>\<open>[float(''.join(y.split(','))) for y in x.strip('[]').split(',')]\<close>.\<close>

definition parse_prices :: "string \<Rightarrow> pyerr + pyfloat list" where
  "parse_prices x = floats_of (split_comma (strip_brackets x))"

text \<open>\<^verbatim>\<open>df_filtered['Prices'].apply(...)\<close>: the rows in order, the first exception ends
  it.\<close>

fun apply_parse_prices :: "(string \<times> string) list \<Rightarrow> pyerr + (string \<times> pyfloat list) list" where
  "apply_parse_prices [] = Inr []"
| "apply_parse_prices ((n, x) # rs) =
     (case parse_prices x of
        Inl e \<Rightarrow> Inl e
      | Inr vs \<Rightarrow> (case apply_parse_prices rs of Inl e \<Rightarrow> Inl e | Inr ss \<Rightarrow> Inr ((n, vs) # ss)))"

text \<open>
  \<^verbatim>\<open>plot_graph(search_strings, df)\<close>, as far as the data goes: for every search string
  the path of the image and the lines drawn in it, each the name of a product and its
  prices. An exception ends the function; \<open>None\<close> stands for a search string outside the
  modelled patterns.
\<close>

fun plot_graph :: "string list \<Rightarrow> (string \<times> string) list
    \<Rightarrow> (pyerr + (string \<times> (string \<times> pyfloat list) list) list) option" where
  "plot_graph [] df = Some (Inr [])"
| "plot_graph (search_string # rest) df =
     (case df_filtered search_string df of
        None \<Rightarrow> None
      | Some rows \<Rightarrow>
          (case apply_parse_prices rows of
             Inl e \<Rightarrow> Some (Inl e)
           | Inr series \<Rightarrow>
               (case plot_graph rest df of
                  None \<Rightarrow> None
                | Some (Inl e) \<Rightarrow> Some (Inl e)
                | Some (Inr charts) \<Rightarrow>
                    Some (Inr ((''results/'' @ search_string @ ''_plot.png'', series) # charts)))))"

subsection \<open>The gallery builder: \<^verbatim>\<open>create_html_for_png_files\<close>\<close>

text \<open>\<^verbatim>\<open>os.path.join(a, b)\<close> on a POSIX system.\<close>

definition path_join :: "string \<Rightarrow> string \<Rightarrow> string" where
  "path_join a b =
     (if take 1 b = ''/'' then b
      else if a = [] \<or> endswith a ''/'' then a @ b
      else a @ ''/'' @ b)"

text \<open>The line feed and the double quote of the HTML text.\<close>

definition nl :: string where
  "nl = [CHR 0x0A]"

definition dq :: string where
  "dq = [CHR 0x22]"

text \<open>The text the page starts with (lines 138 to 164), line by line.\<close>

definition html_head :: string where
  "html_head = concat (map (\<lambda>l. l @ nl)
     [''<!DOCTYPE html>'',
      ''<html>'',
      ''<head>'',
      ''<title>Plot Gallery</title>'',
      ''<style>'',
      ''body {'',
      ''    font-family: Arial, sans-serif;'',
      ''    background-color: #f4f4f4;'',
      ''    margin: 0;'',
      ''    padding: 20px;'',
      ''}'',
      ''.container {'',
      ''    max-width: 800px;'',
      ''    margin: 0 auto;'',
      ''}'',
      ''h2 {'',
      ''    color: #333;'',
      ''}'',
      ''img {'',
      ''    display: block;'',
      ''    margin: 10px auto;'',
      ''    box-shadow: 0px 0px 5px 0px rgba(0,0,0,0.75);'',
      ''}'',
      ''</style>'',
      ''</head>'',
      ''<body>'',
      ''<div class='' @ dq @ ''container'' @ dq @ ''>''])"

text \<open>The text the page ends with (line 173).\<close>

definition html_tail :: string where
  "html_tail = ''</div>'' @ nl @ ''</body>'' @ nl @ ''</html>''"

text \<open>The three pieces added for one image (lines 168 to 170).\<close>

definition heading :: "string \<Rightarrow> string" where
  "heading png_file = ''<h2>'' @ png_file @ ''</h2>'' @ nl"

definition image :: "string \<Rightarrow> string \<Rightarrow> string" where
  "image directory png_file =
     ''<img src='' @ dq @ path_join directory png_file @ dq @ '' alt='' @ dq @ png_file @ dq
       @ '' width='' @ dq @ ''800'' @ dq @ ''>'' @ nl"

definition line_break :: string where
  "line_break = ''<br>'' @ nl"

text \<open>The loop over the image files (lines 167 to 170): every round adds to the end of
  the page built so far.\<close>

fun add_images :: "string \<Rightarrow> string \<Rightarrow> string list \<Rightarrow> string" where
  "add_images directory html_content [] = html_content"
| "add_images directory html_content (png_file # png_files) =
     add_images directory
       (((html_content @ heading png_file) @ image directory png_file) @ line_break)
       png_files"

text \<open>
  \<^verbatim>\<open>create_html_for_png_files(directory)\<close>, given what \<^verbatim>\<open>os.listdir(directory)\<close>
  returns: the text written to \<^verbatim>\<open>plot_gallery.html\<close>.
\<close>

definition create_html_for_png_files :: "string \<Rightarrow> string list \<Rightarrow> string" where
  "create_html_for_png_files directory listdir =
     (let png_files = filter (\<lambda>f. endswith f ''.png'') listdir
      in add_images directory html_head png_files @ html_tail)"

text \<open>How often a text occurs in another, counted by the places where it starts.\<close>

fun occurrences :: "string \<Rightarrow> string \<Rightarrow> nat" where
  "occurrences p [] = 0"
| "occurrences p (c # cs) = (if prefix p (c # cs) then 1 else 0) + occurrences p cs"

subsection \<open>The URL list of the entry point\<close>

text \<open>The six string literals of lines 183 to 193, in order.\<close>

definition url_literal_1 :: string where
  "url_literal_1 = ''https://www.makro.pro/c/search?q=%E0%B9%80%E0%B8%99%E0%B8%B7%E0%B9%89%E0%B8%AD%E0%B8%9E%E0%B8%B4%E0%B8%84%E0%B8%B2%E0%B8%99%E0%B8%A2%E0%B9%88%E0%B8%B2''"

definition url_literal_2 :: string where
  "url_literal_2 = ''https://www.makro.pro/c/search?q=%E0%B9%82%E0%B8%9B%E0%B8%A3%E0%B8%9A%E0%B8%B8%E0%B8%8A%E0%B9%80%E0%B8%8A%E0%B8%AD%E0%B8%A3%E0%B9%8C+%E0%B8%AA%E0%B8%B1%E0%B8%99%E0%B8%99%E0%B8%AD%E0%B8%81''"

definition url_literal_3 :: string where
  "url_literal_3 = ''https://www.makro.pro/c/search?q=%E0%B8%AA%E0%B8%B1%E0%B8%99%E0%B8%99%E0%B8%AD%E0%B8%81%E0%B8%A7%E0%B8%B1%E0%B8%A7''"

definition url_literal_4 :: string where
  "url_literal_4 = ''https://www.makro.pro/c/search?q=%E0%B8%AA%E0%B8%B1%E0%B8%99%E0%B9%81%E0%B8%AB%E0%B8%A5%E0%B8%A1''"

definition url_literal_5 :: string where
  "url_literal_5 = ''https://www.makro.pro/c/search?q=%E0%B9%80%E0%B8%99%E0%B8%B7%E0%B9%89%E0%B8%AD%E0%B8%AA%E0%B8%B1%E0%B8%99%E0%B9%81%E0%B8%AB%E0%B8%A5%E0%B8%A1%E0%B8%A3%E0%B8%B4%E0%B8%9A%E0%B8%AD%E0%B8%B2%E0%B8%A2''"

definition url_literal_6 :: string where
  "url_literal_6 = ''https://www.makro.pro/c/search?q=%E0%B9%82%E0%B8%9B%E0%B8%A3%E0%B8%9A%E0%B8%B8%E0%B8%8A%E0%B9%80%E0%B8%8A%E0%B8%AD%E0%B8%A3%E0%B9%8C+%E0%B9%80%E0%B8%99%E0%B8%B7%E0%B9%89%E0%B8%AD+%E0%B8%AA%E0%B8%B1%E0%B8%99%E0%B8%84%E0%B8%AD''"

text \<open>
  The list \<^verbatim>\<open>urls\<close> of lines 181 to 194. There is a comma after each of the first four
  literals and none between the fifth and the sixth (only a comment line): Python joins
  adjacent string literals into one string.
\<close>

definition urls :: "string list" where
  "urls = [url_literal_1, url_literal_2, url_literal_3, url_literal_4,
           url_literal_5 @ url_literal_6]"

subsection \<open>An example run\<close>

text \<open>
  A world in which \<^verbatim>\<open>u1\<close> answers with a page that lists the same product twice,
  \<^verbatim>\<open>u2\<close> answers 404 and every other request times out; and a ledger that an earlier
  run of the same day has written.
\<close>

definition example_page :: "container list" where
  "example_page =
     [\<lparr>name_div = Some '' Apple '', price_p = Some ''1,234'', brand_div = Some ''X''\<rparr>,
      \<lparr>name_div = Some ''Apple'', price_p = Some ''1,234 '', brand_div = Some ''X''\<rparr>]"

definition example_world :: world where
  "example_world =
     \<lparr>requests_get = (\<lambda>i url.
        if url = ''u1''
        then Response \<lparr>status_code = 200, reason = ''OK'', final_url = url,
                       products = example_page\<rparr>
        else if url = ''u2''
        then Response \<lparr>status_code = 404, reason = ''Not Found'', final_url = url,
                       products = []\<rparr>
        else RequestException ''timeout''),
      today = (\<lambda>i. ''2024-01-01'')\<rparr>"

definition example_batch :: "string observation list" where
  "example_batch =
     [\<lparr>Name = ''Apple'', Price = ''1234'', Brand = ''X'', Date = ''2024-01-01''\<rparr>,
      \<lparr>Name = ''Apple'', Price = ''1234'', Brand = ''X'', Date = ''2024-01-01''\<rparr>]"

definition example_files :: files where
  "example_files =
     \<lparr>ledger = [Header,
        Record \<lparr>Name = ''Apple'', Price = ''1234'', Brand = ''X'', Date = ''2024-01-01''\<rparr>,
        Record \<lparr>Name = ''Pork'', Price = ''5'', Brand = ''Y'', Date = ''2024-01-01''\<rparr>],
      scraper_log = []\<rparr>"






section \<open>Properties\<close>

subsection \<open>Auxiliary facts about the ledger writer\<close>

lemma drop_duplicates_from_set: "set (drop_duplicates_from seen xs) = set xs - set seen"
  by (induction xs arbitrary: seen) auto

lemma drop_duplicates_from_distinct: "distinct (drop_duplicates_from seen xs)"
  by (induction xs arbitrary: seen) (auto simp: drop_duplicates_from_set)

lemma set_drop_duplicates: "set (drop_duplicates xs) = set xs"
  by (simp add: drop_duplicates_def drop_duplicates_from_set)

lemma distinct_drop_duplicates: "distinct (drop_duplicates xs)"
  by (simp add: drop_duplicates_def drop_duplicates_from_distinct)

lemma sorts_by_name_sort_key: "sorts_by_name (sort_key Name)"
  by (simp add: sorts_by_name_def)

lemma ledger_rows_append: "ledger_rows (a @ b) = ledger_rows a @ ledger_rows b"
  by (induction a rule: ledger_rows.induct) auto

lemma ledger_rows_Record: "ledger_rows (map Record df) = df"
  by (induction df) auto

lemma ledger_rows_to_csv_append: "ledger_rows (to_csv_append old df) = ledger_rows old @ df"
  by (simp add: to_csv_append_def ledger_rows_append ledger_rows_Record)

lemma count_ledger_rows: "count_list ls (Record r) = count_list (ledger_rows ls) r"
  by (induction ls rule: ledger_rows.induct) auto

lemma count_list_distinct: "distinct xs \<Longrightarrow> count_list xs x = (if x \<in> set xs then 1 else 0)"
  by (induction xs) auto

lemma written_distinct:
  assumes "sorts_by_name sort_values"
  shows "distinct (sort_values (drop_duplicates df))
       \<and> set (sort_values (drop_duplicates df)) = set df"
proof -
  let ?w = "sort_values (drop_duplicates df)"
  from assms have m: "mset ?w = mset (drop_duplicates df)"
    by (simp add: sorts_by_name_def)
  then have "distinct ?w"
    using distinct_drop_duplicates[of df] by (metis mset_eq_imp_distinct_iff)
  moreover from m have "set ?w = set df"
    using set_drop_duplicates[of df] by (metis mset_eq_setD)
  ultimately show ?thesis by simp
qed

lemma count_written:
  assumes "sorts_by_name sort_values"
  shows "count_list (sort_values (drop_duplicates df)) r = (if r \<in> set df then 1 else 0)"
  using written_distinct[OF assms, of df] by (simp add: count_list_distinct)

lemma step_1_returns:
  assumes "fst (fetch_all w 0 us [] (scraper_log fs)) = Inr batch"
  shows "fst (step_1 sort_values w us fs) = None"
    and "ledger (snd (step_1 sort_values w us fs))
           = to_csv_append (ledger fs) (sort_values (drop_duplicates batch))"
  using assms by (auto simp: step_1_def split: prod.splits sum.splits)

lemma step_1_aborts:
  assumes "fst (fetch_all w 0 us [] (scraper_log fs)) = Inl e"
  shows "fst (step_1 sort_values w us fs) = Some e"
    and "ledger (snd (step_1 sort_values w us fs)) = ledger fs"
  using assms by (auto simp: step_1_def split: prod.splits sum.splits)

lemma count_after_run:
  assumes "sorts_by_name sort_values"
    and "fst (fetch_all w 0 us [] (scraper_log fs)) = Inr batch"
  shows "count_list (ledger (snd (step_1 sort_values w us fs))) (Record r)
           = count_list (ledger fs) (Record r) + (if r \<in> set batch then 1 else 0)"
  by (simp only: step_1_returns(2)[OF assms(2)] count_ledger_rows ledger_rows_to_csv_append
       count_list_append count_written[OF assms(1)])

subsection \<open>The fetcher\<close>

text \<open>What the code does catch: when \<^verbatim>\<open>requests.get\<close> raises, or the status is one
  \<^verbatim>\<open>raise_for_status\<close> raises for (400 to 599), \<^verbatim>\<open>scrape_prices\<close> returns the empty
  list without raising, the log grows by exactly the error line for that URL, and the loop
  of \<^verbatim>\<open>step_1\<close> goes on with the remaining URLs.\<close>

lemma request_raises_status:
  "request_raises (Response r) = (400 \<le> status_code r \<and> status_code r < 600)"
  by (auto simp: raise_for_status_def)

lemma scrape_prices_caught:
  assumes "request_raises (requests_get w i url)"
  shows "scrape_prices (requests_get w i) url lg
           = (Inr [], lg @ [error_entry url (failure_message (requests_get w i url))])"
    and "fetch_all w i (url # us) acc lg
           = fetch_all w (Suc i) us acc
               (lg @ [error_entry url (failure_message (requests_get w i url))])"
proof -
  show s: "scrape_prices (requests_get w i) url lg
           = (Inr [], lg @ [error_entry url (failure_message (requests_get w i url))])"
    using assms
    by (cases "requests_get w i url") (auto simp: scrape_prices_def)
  then show "fetch_all w i (url # us) acc lg
           = fetch_all w (Suc i) us acc
               (lg @ [error_entry url (failure_message (requests_get w i url))])"
    by simp
qed

text \<open>
  Claim C1 says that every failed request, also one answered with a status that is not a
  success status, gives the empty list and exactly one log entry. The code calls
  \<^verbatim>\<open>raise_for_status\<close>, which raises for the statuses 400 to 599 only, while the comment
  on line 18 speaks of every status that is not 2xx. A response with status 304 is
  treated as a page: nothing is logged. A response with status 300 whose body lists
  products is scraped: its rows are returned and nothing is logged.
\<close>

theorem scrape_prices_logs_nothing_for_3xx:
  "request_failed (Response \<lparr>status_code = 304, reason = ''Not Modified'', final_url = ''u'',
                            products = []\<rparr>)
   \<and> scrape_prices (\<lambda>url. Response \<lparr>status_code = 304, reason = ''Not Modified'',
                            final_url = ''u'', products = []\<rparr>) ''u'' []
       = (Inr [], [])
   \<and> scrape_prices (\<lambda>url. Response \<lparr>status_code = 300, reason = ''Multiple Choices'',
                            final_url = ''u'', products = example_page\<rparr>) ''u'' []
       = (Inr [(''Apple'', ''1234'', ''X''), (''Apple'', ''1234'', ''X'')], [])"
  by code_simp

subsection \<open>The ledger writer\<close>

text \<open>
  Claim C2. Within one run, a row that occurs several times in the fetched batch (equal
  in name, price, brand and date) is written once: the run adds exactly one copy of every
  row of the batch to the ledger file. Against the file there is no deduplication: a
  second run that fetches the same batch adds a second copy of every row, whatever the
  file held before.
\<close>

theorem step_1_deduplicates_within_a_run_only:
  assumes "sorts_by_name sort_values"
    and "fst (fetch_all w1 0 us1 [] (scraper_log fs0)) = Inr batch"
    and "step_1 sort_values w1 us1 fs0 = (r1, fs1)"
    and "fst (fetch_all w2 0 us2 [] (scraper_log fs1)) = Inr batch"
    and "step_1 sort_values w2 us2 fs1 = (r2, fs2)"
  shows "r1 = None \<and> r2 = None
       \<and> count_list (ledger fs1) (Record r)
           = count_list (ledger fs0) (Record r) + (if r \<in> set batch then 1 else 0)
       \<and> count_list (ledger fs2) (Record r)
           = count_list (ledger fs0) (Record r) + (if r \<in> set batch then 2 else 0)"
proof -
  have r1: "r1 = None"
    using step_1_returns(1)[OF assms(2), of sort_values] assms(3) by simp
  have r2: "r2 = None"
    using step_1_returns(1)[OF assms(4), of sort_values] assms(5) by simp
  have c1: "count_list (ledger fs1) (Record r)
           = count_list (ledger fs0) (Record r) + (if r \<in> set batch then 1 else 0)"
    using count_after_run[OF assms(1,2), of r] assms(3) by simp
  have c2: "count_list (ledger fs2) (Record r)
           = count_list (ledger fs1) (Record r) + (if r \<in> set batch then 1 else 0)"
    using count_after_run[OF assms(1,4), of r] assms(5) by simp
  from r1 r2 c1 c2 show ?thesis by simp
qed

theorem step_1_deduplicates_within_a_run_only_witness:
  "fst (step_1 (sort_key Name) example_world [''u1'', ''u2''] example_files) = None
   \<and> count_list (ledger example_files) (Record (hd example_batch)) = 1
   \<and> count_list (ledger (snd (step_1 (sort_key Name) example_world [''u1'', ''u2''] example_files)))
        (Record (hd example_batch)) = 2
   \<and> count_list (ledger (snd (step_1 (sort_key Name) example_world [''u1'', ''u2'']
        (snd (step_1 (sort_key Name) example_world [''u1'', ''u2''] example_files)))))
        (Record (hd example_batch)) = 3"
proof -
  let ?fs1 = "snd (step_1 (sort_key Name) example_world [''u1'', ''u2''] example_files)"
  let ?fs2 = "snd (step_1 (sort_key Name) example_world [''u1'', ''u2''] ?fs1)"
  have f1: "fst (fetch_all example_world 0 [''u1'', ''u2''] [] (scraper_log example_files))
              = Inr example_batch"
    by code_simp
  have f2: "fst (fetch_all example_world 0 [''u1'', ''u2''] [] (scraper_log ?fs1))
              = Inr example_batch"
    by code_simp
  have c0: "count_list (ledger example_files) (Record (hd example_batch)) = 1"
    by code_simp
  have m: "hd example_batch \<in> set example_batch"
    by (simp add: example_batch_def)
  show ?thesis
    using step_1_deduplicates_within_a_run_only [OF sorts_by_name_sort_key f1 _ f2,
        of "fst (step_1 (sort_key Name) example_world [''u1'', ''u2''] example_files)"
           "fst (step_1 (sort_key Name) example_world [''u1'', ''u2''] ?fs1)" ?fs2
           "hd example_batch"] c0 m
    by simp
qed

text \<open>
  Claim C3, as stated, says that a run rewrites the file with the deduplicated, sorted
  union of the old records and the new ones. The code does not: on the example ledger the
  run leaves the two old records in place and adds a second copy of the first after them.
\<close>

theorem step_1_rewrites_merged_table_counterexample:
  "ledger (snd (step_1 (sort_key Name) example_world [''u1'', ''u2''] example_files))
     \<noteq> ledger (snd (step_1_merge_rewrite (sort_key Name) example_world [''u1'', ''u2'']
           example_files))"
  by code_simp

text \<open>
  Claim C3, amended. A run that returns deduplicates and sorts only the batch it fetched
  and appends it to the ledger file: the file afterwards is the file before, then the
  header if the file was empty, then the rows of the batch, each once, non-decreasing by
  name. What the file held is neither read nor changed.
\<close>

theorem step_1_appends_the_sorted_batch:
  assumes "sorts_by_name sort_values"
    and "fst (fetch_all w 0 us [] (scraper_log fs)) = Inr batch"
  shows "\<exists>written.
           ledger (snd (step_1 sort_values w us fs))
             = ledger fs @ (if ledger fs = [] then [Header] else []) @ map Record written
         \<and> distinct written \<and> set written = set batch \<and> sorted (map Name written)"
proof -
  let ?w = "sort_values (drop_duplicates batch)"
  have "ledger (snd (step_1 sort_values w us fs))
             = ledger fs @ (if ledger fs = [] then [Header] else []) @ map Record ?w"
    using step_1_returns(2)[OF assms(2), of sort_values] by (simp add: to_csv_append_def)
  moreover have "distinct ?w \<and> set ?w = set batch"
    using written_distinct[OF assms(1)] by simp
  moreover have "sorted (map Name ?w)"
    using assms(1) by (simp add: sorts_by_name_def)
  ultimately show ?thesis by blast
qed

theorem step_1_appends_the_sorted_batch_witness:
  "\<exists>written.
      ledger (snd (step_1 (sort_key Name) example_world [''u1'', ''u2''] example_files))
        = ledger example_files @ (if ledger example_files = [] then [Header] else [])
            @ map Record written
    \<and> distinct written \<and> set written = set example_batch \<and> sorted (map Name written)"
proof -
  have f1: "fst (fetch_all example_world 0 [''u1'', ''u2''] [] (scraper_log example_files))
              = Inr example_batch"
    by code_simp
  show ?thesis
    using step_1_appends_the_sorted_batch [OF sorts_by_name_sort_key f1] .
qed

text \<open>
  Claim C4, as stated, says that after every run the records of the file are
  non-decreasing by name, also when the file held records before. On the example ledger
  the run appends \<open>Apple\<close> after \<open>Pork\<close>.
\<close>

theorem step_1_ledger_sorted_counterexample:
  "\<not> sorted (map Name (ledger_rows (ledger
        (snd (step_1 (sort_key Name) example_world [''u1'', ''u2''] example_files)))))"
  by code_simp

text \<open>
  Claim C4, amended. After a run that returns, the records the run appended are
  non-decreasing by name; the records of the whole file are non-decreasing by name exactly
  when those the file held before were, and none of them has a name greater than the name
  of a fetched row. In particular the file is sorted after a run on an empty or new file.
\<close>

theorem step_1_ledger_sorted_iff:
  assumes "sorts_by_name sort_values"
    and "fst (fetch_all w 0 us [] (scraper_log fs)) = Inr batch"
  shows "sorted (map Name (drop (length (ledger_rows (ledger fs)))
                   (ledger_rows (ledger (snd (step_1 sort_values w us fs))))))
       \<and> (sorted (map Name (ledger_rows (ledger (snd (step_1 sort_values w us fs)))))
            = (sorted (map Name (ledger_rows (ledger fs)))
               \<and> list_all (\<lambda>a. list_all (\<lambda>b. Name a \<le> Name b) batch)
                    (ledger_rows (ledger fs))))"
proof -
  let ?w = "sort_values (drop_duplicates batch)"
  have rows: "ledger_rows (ledger (snd (step_1 sort_values w us fs)))
                = ledger_rows (ledger fs) @ ?w"
    by (simp add: step_1_returns(2)[OF assms(2)] ledger_rows_to_csv_append)
  have s: "sorted (map Name ?w)"
    using assms(1) by (simp add: sorts_by_name_def)
  have st: "set ?w = set batch"
    using written_distinct[OF assms(1)] by simp
  show ?thesis
    unfolding rows using s st by (auto simp: sorted_append list_all_iff)
qed

theorem step_1_ledger_sorted_iff_witness:
  "sorted (map Name (drop (length (ledger_rows (ledger example_files)))
       (ledger_rows (ledger
          (snd (step_1 (sort_key Name) example_world [''u1'', ''u2''] example_files))))))
   \<and> \<not> sorted (map Name (ledger_rows (ledger
        (snd (step_1 (sort_key Name) example_world [''u1'', ''u2''] example_files)))))
   \<and> sorted (map Name (ledger_rows (ledger
        (snd (step_1 (sort_key Name) example_world [''u1'', ''u2'']
           \<lparr>ledger = [], scraper_log = []\<rparr>)))))"
proof -
  have f1: "fst (fetch_all example_world 0 [''u1'', ''u2''] [] (scraper_log example_files))
              = Inr example_batch"
    by code_simp
  have f2: "fst (fetch_all example_world 0 [''u1'', ''u2''] []
                   (scraper_log \<lparr>ledger = [], scraper_log = []\<rparr>))
              = Inr example_batch"
    by code_simp
  have n1: "\<not> list_all (\<lambda>a. list_all (\<lambda>b. Name a \<le> Name b) example_batch)
               (ledger_rows (ledger example_files))"
    by code_simp
  show ?thesis
    using step_1_ledger_sorted_iff [OF sorts_by_name_sort_key f1]
      step_1_ledger_sorted_iff [OF sorts_by_name_sort_key f2] n1
    by simp
qed

subsection \<open>The aggregator\<close>

lemma map_of_add_to_group:
  "map_of (add_to_group k v gs)
     = (map_of gs)(k \<mapsto> (case map_of gs k of None \<Rightarrow> [v] | Some vs \<Rightarrow> vs @ [v]))"
  by (induction gs) (auto simp: fun_eq_iff)

lemma keys_add_to_group: "fst ` set (add_to_group k v gs) = insert k (fst ` set gs)"
  by (induction gs) force+

lemma distinct_add_to_group:
  "distinct (map fst gs) \<Longrightarrow> distinct (map fst (add_to_group k v gs))"
  by (induction gs) (auto simp: keys_add_to_group)

lemma groups_of_keys: "fst ` set (groups_of gs df) = fst ` set gs \<union> Name ` set df"
  unfolding groups_of_def
  by (induction df arbitrary: gs) (auto simp: keys_add_to_group)

lemma groups_of_distinct: "distinct (map fst gs) \<Longrightarrow> distinct (map fst (groups_of gs df))"
  unfolding groups_of_def
  by (induction df arbitrary: gs) (auto simp: distinct_add_to_group)

lemma groups_of_lookup:
  "map_of (groups_of gs df) k
     = (case map_of gs k of
          None \<Rightarrow> (if k \<in> Name ` set df
                    then Some (map Price (filter (\<lambda>r. Name r = k) df)) else None)
        | Some vs \<Rightarrow> Some (vs @ map Price (filter (\<lambda>r. Name r = k) df)))"
  unfolding groups_of_def
proof (induction df arbitrary: gs)
  case Nil
  then show ?case by (simp split: option.splits)
next
  case (Cons r df)
  show ?case
    by (simp add: Cons.IH map_of_add_to_group split: option.splits)
qed

lemma groupby_Name_keys:
  "map fst (groupby_Name df) = sort (remdups (map Name df))"
proof -
  have d: "distinct (map fst (groupby_Name df))"
    using groups_of_distinct[of "[]" df] by (simp add: groupby_Name_def distinct_map)
  have s: "sorted (map fst (groupby_Name df))"
    by (simp add: groupby_Name_def)
  have k: "set (map fst (groupby_Name df)) = set (map Name df)"
    using groups_of_keys[of "[]" df] by (simp add: groupby_Name_def)
  show ?thesis
    by (rule sorted_distinct_set_unique) (use d s k in auto)
qed

lemma groupby_Name_group:
  assumes "(k, vs) \<in> set (groupby_Name df)"
  shows "vs = map Price (filter (\<lambda>r. Name r = k) df)" and "vs \<noteq> []"
proof -
  let ?gs = "groups_of [] df"
  have "(k, vs) \<in> set ?gs"
    using assms by (simp add: groupby_Name_def)
  moreover have "distinct (map fst ?gs)"
    by (simp add: groups_of_distinct)
  ultimately have m: "map_of ?gs k = Some vs"
    by simp
  then show "vs = map Price (filter (\<lambda>r. Name r = k) df)"
    by (simp add: groups_of_lookup split: if_splits)
  from m show "vs \<noteq> []"
    by (auto simp: groups_of_lookup filter_empty_conv split: if_splits)
qed

text \<open>The grouped table before it is written: its keys are the distinct names in
  ascending order, and the group of a name holds the prices of the ledger rows with that
  name, in the order of the ledger rows.\<close>

lemma groupby_Name_rows:
  "groupby_Name df
     = map (\<lambda>k. (k, map Price (filter (\<lambda>r. Name r = k) df))) (sort (remdups (map Name df)))"
proof -
  have "groupby_Name df = map (\<lambda>g. (fst g, snd g)) (groupby_Name df)"
    by simp
  also have "\<dots> = map (\<lambda>g. (fst g, map Price (filter (\<lambda>r. Name r = fst g) df)))
                     (groupby_Name df)"
    by (rule map_cong) (auto dest: groupby_Name_group(1))
  also have "\<dots> = map (\<lambda>k. (k, map Price (filter (\<lambda>r. Name r = k) df)))
                     (map fst (groupby_Name df))"
    by simp
  finally show ?thesis
    by (simp only: groupby_Name_keys)
qed

lemma step_2_rows:
  "step_2 df
     = map (\<lambda>k. (k, str_list (map Price (filter (\<lambda>r. Name r = k) df))))
         (sort (remdups (map Name df)))"
  unfolding step_2_def by (subst groupby_Name_rows) simp

lemma step_2_names: "map fst (step_2 df) = sort (remdups (map Name df))"
  unfolding step_2_rows by (simp add: comp_def)

text \<open>
  Claim C5. \<^verbatim>\<open>step_2\<close> writes exactly one row for every distinct name of the ledger
  table, in ascending order of the names, and no other row; the Prices value of the row
  of a name is the list of the prices of the ledger rows with that name, in the order of
  the ledger rows, written as \<^verbatim>\<open>str\<close> writes a list. For the ledger
  (A, 10), (A, 20), (B, 5) the grouped table has the two groups A with [10, 20] and B
  with [5], and the two rows written are A with \<^verbatim>\<open>[10, 20]\<close> and B with \<^verbatim>\<open>[5]\<close>.
\<close>

theorem step_2_one_row_per_name:
  "step_2 df
     = map (\<lambda>k. (k, str_list (map Price (filter (\<lambda>r. Name r = k) df))))
         (sort (remdups (map Name df)))
   \<and> distinct (map fst (step_2 df))
   \<and> set (map fst (step_2 df)) = set (map Name df)
   \<and> groupby_Name
        [\<lparr>Name = ''A'', Price = PyInt 10, Brand = b1, Date = d1\<rparr>,
         \<lparr>Name = ''A'', Price = PyInt 20, Brand = b2, Date = d2\<rparr>,
         \<lparr>Name = ''B'', Price = PyInt 5, Brand = b3, Date = d3\<rparr>]
       = [(''A'', [PyInt 10, PyInt 20]), (''B'', [PyInt 5])]
   \<and> step_2
        [\<lparr>Name = ''A'', Price = PyInt 10, Brand = b1, Date = d1\<rparr>,
         \<lparr>Name = ''A'', Price = PyInt 20, Brand = b2, Date = d2\<rparr>,
         \<lparr>Name = ''B'', Price = PyInt 5, Brand = b3, Date = d3\<rparr>]
       = [(''A'', ''[10, 20]''), (''B'', ''[5]'')]"
proof -
  have ex: "groupby_Name
        [\<lparr>Name = ''A'', Price = PyInt 10, Brand = b1, Date = d1\<rparr>,
         \<lparr>Name = ''A'', Price = PyInt 20, Brand = b2, Date = d2\<rparr>,
         \<lparr>Name = ''B'', Price = PyInt 5, Brand = b3, Date = d3\<rparr>]
       = [(''A'', [PyInt 10, PyInt 20]), (''B'', [PyInt 5])]"
    by (simp add: groupby_Name_def groups_of_def)
  have s1: "str_list [PyInt 10, PyInt 20] = ''[10, 20]''"
    by code_simp
  have s2: "str_list [PyInt 5] = ''[5]''"
    by code_simp
  have ex2: "step_2
        [\<lparr>Name = ''A'', Price = PyInt 10, Brand = b1, Date = d1\<rparr>,
         \<lparr>Name = ''A'', Price = PyInt 20, Brand = b2, Date = d2\<rparr>,
         \<lparr>Name = ''B'', Price = PyInt 5, Brand = b3, Date = d3\<rparr>]
       = [(''A'', ''[10, 20]''), (''B'', ''[5]'')]"
    unfolding step_2_def ex by (simp only: list.map prod.case s1 s2)
  have d: "distinct (map fst (step_2 df))"
    by (simp only: step_2_names) simp
  have k: "set (map fst (step_2 df)) = set (map Name df)"
    by (simp only: step_2_names) simp
  show ?thesis
    by (intro conjI step_2_rows d k ex ex2)
qed

subsection \<open>The chart renderer\<close>

lemma match_here_prefix: "CHR ''.'' \<notin> set pat \<Longrightarrow> match_here pat s = prefix pat s"
  by (induction pat s rule: match_here.induct) auto

lemma re_search_sublist: "CHR ''.'' \<notin> set pat \<Longrightarrow> re_search pat s = sublist pat s"
  by (induction s) (auto simp: match_here_prefix sublist_Cons_right)

text \<open>For a search string without a character that means something in a regular
  expression, the selected rows are those whose name has the search string as a part.\<close>

lemma df_filtered_literal:
  assumes "\<not> list_ex regex_special search_string" and "CHR ''.'' \<notin> set search_string"
  shows "df_filtered search_string df = Some (filter (\<lambda>r. sublist search_string (fst r)) df)"
  using assms by (simp add: df_filtered_def re_search_sublist)

text \<open>
  Claim C6 says that the rows selected for a search string are exactly those whose name
  contains it as literal text. The code hands the search string to pandas as a regular
  expression: for the search string \<^verbatim>\<open>1.5\<close> the product \<^verbatim>\<open>Beef 125g\<close> is selected,
  though its name does not contain the text \<^verbatim>\<open>1.5\<close>.
\<close>

theorem df_filtered_reads_dot_as_wildcard:
  "df_filtered ''1.5'' [(''Beef 125g'', ''[5]'')] = Some [(''Beef 125g'', ''[5]'')]
   \<and> \<not> sublist ''1.5'' ''Beef 125g''"
  by code_simp











































































text \<open>The renderer's own removal of commas comes after the split at the commas and finds
  none: a price text that still had a comma would be read as two prices.\<close>

lemma parse_prices_splits_first: "parse_prices ''[1,234]'' = Inr [Finite False 1, Finite False 234]"
  by code_simp










subsection \<open>The URL list\<close>

text \<open>
  Claim C10. The list \<^verbatim>\<open>urls\<close> has five elements, not six: its last element is the
  fifth literal followed by the sixth, and neither the fifth nor the sixth search URL is
  an element of its own, so neither is requested by the loop over the list.
\<close>

theorem urls_has_five_elements:
  "length urls = 5 \<and> urls ! 4 = url_literal_5 @ url_literal_6
   \<and> url_literal_5 \<notin> set urls \<and> url_literal_6 \<notin> set urls"
  by code_simp

subsection \<open>The gallery builder\<close>

lemma occurrences_skip:
  "c \<notin> set a \<Longrightarrow> occurrences (c # q) (a @ b) = occurrences (c # q) b"
  by (induction a) simp_all

lemma path_join_no_lt:
  "CHR ''<'' \<notin> set a \<Longrightarrow> CHR ''<'' \<notin> set b \<Longrightarrow> CHR ''<'' \<notin> set (path_join a b)"
  by (simp add: path_join_def)

lemma heading_h2:
  assumes "CHR ''<'' \<notin> set f"
  shows "occurrences ''<h2>'' (heading f @ r) = 1 + occurrences ''<h2>'' r"
proof -
  have "occurrences ''<h2>'' (''</h2>'' @ nl @ r) = occurrences ''<h2>'' r"
    by (simp add: nl_def)
  then show ?thesis
    using assms by (simp add: heading_def occurrences_skip)
qed

lemma heading_img:
  assumes "CHR ''<'' \<notin> set f"
  shows "occurrences ''<img '' (heading f @ r) = occurrences ''<img '' r"
proof -
  have "occurrences ''<img '' (''</h2>'' @ nl @ r) = occurrences ''<img '' r"
    by (simp add: nl_def)
  then show ?thesis
    using assms by (simp add: heading_def occurrences_skip)
qed

lemma image_tail_h2:
  assumes "CHR ''<'' \<notin> set f"
  shows "occurrences (CHR ''<'' # q) (dq @ '' alt='' @ dq @ f @ dq @ '' width='' @ dq @ ''800'' @ dq @ ''>'' @ nl @ r)
           = occurrences (CHR ''<'' # q) r"
proof -
  have a: "occurrences (CHR ''<'' # q) (dq @ '' width='' @ dq @ ''800'' @ dq @ ''>'' @ nl @ r)
             = occurrences (CHR ''<'' # q) r"
    by (simp add: nl_def dq_def)
  have b: "occurrences (CHR ''<'' # q) (f @ dq @ '' width='' @ dq @ ''800'' @ dq @ ''>'' @ nl @ r)
             = occurrences (CHR ''<'' # q) r"
    by (simp only: occurrences_skip[OF assms] a)
  have c: "occurrences (CHR ''<'' # q) (dq @ '' alt='' @ dq @ x) = occurrences (CHR ''<'' # q) x" for x
    by (simp add: dq_def)
  show ?thesis
    by (simp only: c b)
qed

lemma image_h2:
  assumes "CHR ''<'' \<notin> set d" and "CHR ''<'' \<notin> set f"
  shows "occurrences ''<h2>'' (image d f @ r) = occurrences ''<h2>'' r"
proof -
  let ?t = "dq @ '' alt='' @ dq @ f @ dq @ '' width='' @ dq @ ''800'' @ dq @ ''>'' @ nl @ r"
  have a: "occurrences ''<h2>'' (path_join d f @ ?t) = occurrences ''<h2>'' r"
    by (simp only: occurrences_skip[OF path_join_no_lt[OF assms]]
          image_tail_h2[OF assms(2), of "''h2>''" r])
  have b: "occurrences ''<h2>'' (''<img src='' @ dq @ x) = occurrences ''<h2>'' x" for x
    by (simp add: dq_def)
  have "image d f @ r = ''<img src='' @ dq @ path_join d f @ ?t"
    by (simp add: image_def)
  then show ?thesis
    by (simp only: b a)
qed

lemma image_img:
  assumes "CHR ''<'' \<notin> set d" and "CHR ''<'' \<notin> set f"
  shows "occurrences ''<img '' (image d f @ r) = 1 + occurrences ''<img '' r"
proof -
  let ?t = "dq @ '' alt='' @ dq @ f @ dq @ '' width='' @ dq @ ''800'' @ dq @ ''>'' @ nl @ r"
  have a: "occurrences ''<img '' (path_join d f @ ?t) = occurrences ''<img '' r"
    by (simp only: occurrences_skip[OF path_join_no_lt[OF assms]]
          image_tail_h2[OF assms(2), of "''img ''" r])
  have b: "occurrences ''<img '' (''<img src='' @ dq @ x) = 1 + occurrences ''<img '' x" for x
    by (simp add: dq_def)
  have "image d f @ r = ''<img src='' @ dq @ path_join d f @ ?t"
    by (simp add: image_def)
  then show ?thesis
    by (simp only: b a)
qed

lemma line_break_h2: "occurrences ''<h2>'' (line_break @ r) = occurrences ''<h2>'' r"
  by (simp add: line_break_def nl_def)

lemma line_break_img: "occurrences ''<img '' (line_break @ r) = occurrences ''<img '' r"
  by (simp add: line_break_def nl_def)

lemma add_images_append:
  "add_images directory html_content png_files
     = html_content @ concat (map (\<lambda>f. heading f @ image directory f @ line_break) png_files)"
  by (induction png_files arbitrary: html_content) simp_all

lemma create_html_structure:
  "create_html_for_png_files directory listdir
     = html_head
       @ concat (map (\<lambda>f. heading f @ image directory f @ line_break)
                   (filter (\<lambda>f. endswith f ''.png'') listdir))
       @ html_tail"
  unfolding create_html_for_png_files_def Let_def add_images_append
  by (rule append_assoc)

lemma prefix_append_last:
  assumes "a \<noteq> []" and "last a \<notin> set p"
  shows "prefix p (a @ b) = prefix p a"
proof
  assume "prefix p (a @ b)"
  then have "prefix p a \<or> (\<exists>us. p = a @ us)"
    by (auto simp: prefix_append)
  moreover have "p \<noteq> a @ us" for us
  proof
    assume "p = a @ us"
    then have "last a \<in> set p" using assms(1) by simp
    with assms(2) show False by simp
  qed
  ultimately show "prefix p a" by blast
next
  assume "prefix p a"
  then show "prefix p (a @ b)" by (rule prefix_prefix)
qed

lemma occurrences_append:
  assumes "a \<noteq> []" and "last a \<notin> set p"
  shows "occurrences p (a @ b) = occurrences p a + occurrences p b"
  using assms
proof (induction a)
  case Nil
  then show ?case by simp
next
  case (Cons c a)
  show ?case
  proof (cases "a = []")
    case True
    with Cons.prems have "c \<notin> set p" by simp
    then have "prefix p (c # b) = prefix p [c]"
      by (cases p) auto
    with True show ?thesis by simp
  next
    case False
    with Cons.prems have l: "last a \<notin> set p" by simp
    have "prefix p ((c # a) @ b) = prefix p (c # a)"
      by (rule prefix_append_last) (use Cons.prems in auto)
    with Cons.IH[OF False l] show ?thesis by simp
  qed
qed

lemma html_head_last: "html_head \<noteq> [] \<and> last html_head = CHR 0x0A"
  by code_simp

lemma html_head_h2: "occurrences ''<h2>'' html_head = 0"
  by code_simp

lemma html_head_img: "occurrences ''<img '' html_head = 0"
  by code_simp

lemma html_tail_h2: "occurrences ''<h2>'' html_tail = 0"
  by code_simp

lemma html_tail_img: "occurrences ''<img '' html_tail = 0"
  by code_simp

lemma entries_h2:
  assumes "CHR ''<'' \<notin> set d" and "list_all (\<lambda>f. CHR ''<'' \<notin> set f) fs"
  shows "occurrences ''<h2>'' (concat (map (\<lambda>f. heading f @ image d f @ line_break) fs) @ r)
           = length fs + occurrences ''<h2>'' r"
  using assms(2)
proof (induction fs)
  case Nil
  then show ?case by simp
next
  case (Cons f fs)
  then have f: "CHR ''<'' \<notin> set f" and fs: "list_all (\<lambda>f. CHR ''<'' \<notin> set f) fs"
    by simp_all
  have "occurrences ''<h2>'' ((heading f @ image d f @ line_break)
          @ concat (map (\<lambda>f. heading f @ image d f @ line_break) fs) @ r)
        = 1 + (length fs + occurrences ''<h2>'' r)"
    unfolding append_assoc heading_h2[OF f] image_h2[OF assms(1) f] line_break_h2 Cons.IH[OF fs]
    by (rule refl)
  then show ?case
    by simp
qed

lemma entries_img:
  assumes "CHR ''<'' \<notin> set d" and "list_all (\<lambda>f. CHR ''<'' \<notin> set f) fs"
  shows "occurrences ''<img '' (concat (map (\<lambda>f. heading f @ image d f @ line_break) fs) @ r)
           = length fs + occurrences ''<img '' r"
  using assms(2)
proof (induction fs)
  case Nil
  then show ?case by simp
next
  case (Cons f fs)
  then have f: "CHR ''<'' \<notin> set f" and fs: "list_all (\<lambda>f. CHR ''<'' \<notin> set f) fs"
    by simp_all
  have "occurrences ''<img '' ((heading f @ image d f @ line_break)
          @ concat (map (\<lambda>f. heading f @ image d f @ line_break) fs) @ r)
        = 1 + (length fs + occurrences ''<img '' r)"
    unfolding append_assoc heading_img[OF f] image_img[OF assms(1) f] line_break_img Cons.IH[OF fs]
    by (rule refl)
  then show ?case
    by simp
qed

lemma gallery_count:
  assumes "CHR ''<'' \<notin> set d" and "list_all (\<lambda>f. CHR ''<'' \<notin> set f) fs"
  shows "occurrences ''<h2>''
           (html_head @ concat (map (\<lambda>f. heading f @ image d f @ line_break) fs) @ html_tail)
           = length fs"
    and "occurrences ''<img ''
           (html_head @ concat (map (\<lambda>f. heading f @ image d f @ line_break) fs) @ html_tail)
           = length fs"
proof -
  have ne: "html_head \<noteq> []" using html_head_last by simp
  have nl1: "last html_head \<notin> set ''<h2>''" and nl2: "last html_head \<notin> set ''<img ''"
    using html_head_last by simp_all
  show "occurrences ''<h2>''
           (html_head @ concat (map (\<lambda>f. heading f @ image d f @ line_break) fs) @ html_tail)
           = length fs"
    by (simp add: occurrences_append[OF ne nl1] html_head_h2 entries_h2[OF assms] html_tail_h2)
  show "occurrences ''<img ''
           (html_head @ concat (map (\<lambda>f. heading f @ image d f @ line_break) fs) @ html_tail)
           = length fs"
    by (simp add: occurrences_append[OF ne nl2] html_head_img entries_img[OF assms] html_tail_img)
qed

text \<open>
  Claim C8. The page is the fixed head, then for every file of the listing whose name
  ends in \<^verbatim>\<open>.png\<close>, in listing order, one heading, one image reference and one line
  break, then the fixed tail; nothing is emitted for any other file. When neither the
  directory nor the names of the image files contain the character \<^verbatim>\<open><\<close>, the text
  \<^verbatim>\<open><h2>\<close> and the text \<^verbatim>\<open><img \<close> each occur in the page exactly once per image
  file. For a directory with only \<^verbatim>\<open>a.png\<close> and \<^verbatim>\<open>b.png\<close> that is two headings and
  two image references.
\<close>

theorem gallery_one_heading_and_image_per_png:
  "create_html_for_png_files directory listdir
     = html_head
       @ concat (map (\<lambda>f. heading f @ image directory f @ line_break)
                   (filter (\<lambda>f. endswith f ''.png'') listdir))
       @ html_tail
   \<and> (list_all (\<lambda>t. CHR ''<'' \<notin> set t) (directory # filter (\<lambda>f. endswith f ''.png'') listdir)
        \<longrightarrow> occurrences ''<h2>'' (create_html_for_png_files directory listdir)
              = length (filter (\<lambda>f. endswith f ''.png'') listdir)
          \<and> occurrences ''<img '' (create_html_for_png_files directory listdir)
              = length (filter (\<lambda>f. endswith f ''.png'') listdir))"
proof (intro conjI impI)
  show "create_html_for_png_files directory listdir
     = html_head
       @ concat (map (\<lambda>f. heading f @ image directory f @ line_break)
                   (filter (\<lambda>f. endswith f ''.png'') listdir))
       @ html_tail"
    by (rule create_html_structure)
next
  let ?fs = "filter (\<lambda>f. endswith f ''.png'') listdir"
  assume "list_all (\<lambda>t. CHR ''<'' \<notin> set t) (directory # ?fs)"
  then have d: "CHR ''<'' \<notin> set directory" and fs: "list_all (\<lambda>f. CHR ''<'' \<notin> set f) ?fs"
    by simp_all
  show "occurrences ''<h2>'' (create_html_for_png_files directory listdir) = length ?fs"
    unfolding create_html_structure by (rule gallery_count(1)[OF d fs])
  show "occurrences ''<img '' (create_html_for_png_files directory listdir) = length ?fs"
    unfolding create_html_structure by (rule gallery_count(2)[OF d fs])
qed

theorem gallery_one_heading_and_image_per_png_witness:
  "occurrences ''<h2>'' (create_html_for_png_files ''results'' [''a.png'', ''b.png'']) = 2
   \<and> occurrences ''<img '' (create_html_for_png_files ''results'' [''a.png'', ''b.png'']) = 2
   \<and> occurrences ''<h2>''
        (create_html_for_png_files ''results'' [''a.png'', ''notes.txt'', ''b.png'', ''c.PNG'']) = 2"
proof -
  have f1: "filter (\<lambda>f. endswith f ''.png'') [''a.png'', ''b.png''] = [''a.png'', ''b.png'']"
    by code_simp
  have f2: "filter (\<lambda>f. endswith f ''.png'') [''a.png'', ''notes.txt'', ''b.png'', ''c.PNG'']
              = [''a.png'', ''b.png'']"
    by code_simp
  have l1: "list_all (\<lambda>t. CHR ''<'' \<notin> set t) [''results'', ''a.png'', ''b.png'']"
    by simp
  have n2: "length [''a.png'', ''b.png''] = 2"
    by simp
  note t1 = gallery_one_heading_and_image_per_png
      [of "''results''" "[''a.png'', ''b.png'']", unfolded f1, THEN conjunct2, rule_format, OF l1,
       unfolded n2]
  note t2 = gallery_one_heading_and_image_per_png
      [of "''results''" "[''a.png'', ''notes.txt'', ''b.png'', ''c.PNG'']", unfolded f2,
       THEN conjunct2, rule_format, OF l1, unfolded n2]
  from t1 t2 show ?thesis
    by blast
qed

end
